theory Spec2Isabelle
  imports Main "HOL-Library.Word" "HOL-Library.Sublist"
begin

unbundle bit_operations_syntax

section \<open>The JACK port stress client (jack\_large\_number\_ports.cpp)\<close>

text \<open>
  The client has three global variables, a realtime callback \<open>process\<close>, a shutdown
  callback \<open>jack_shutdown\<close> and \<open>main\<close>. Everything else is the JACK server, reached
  through the functions of \<open>jack/jack.h\<close>. The server is not part of the sources: what
  it answers to each call is a parameter of the model (the record \<open>jack_server\<close>), and
  the calls the main thread makes, with what it prints, are recorded in order in the
  field \<open>actions\<close> of the program state.
\<close>

subsection \<open>Data\<close>

text \<open>
  Pointers (\<open>jack_client_t *\<close>, \<open>jack_port_t *\<close>, sample pointers) are addresses, with
  \<open>0\<close> for \<open>NULL\<close> and \<open>nullptr\<close>. A \<open>jack_default_audio_sample_t\<close> is a 32-bit float; the
  client only copies samples, so a sample is its 32-bit pattern. The store maps the
  address of a sample slot to its content; \<open>p + k\<close> is the address of \<open>p[k]\<close>.
\<close>

type_synonym pointer = nat
type_synonym sample = "32 word"
type_synonym memory = "pointer \<Rightarrow> sample"

text \<open>Line 30: \<open>constexpr const uint32_t num_ports = 1024\<close>. The loop counters compared
  with it never exceed 1024, far below \<open>2 ^ 32\<close>, so they are natural numbers.\<close>

definition num_ports :: nat where
  "num_ports = 1024"

text \<open>The flags passed to \<open>jack_port_register\<close>, and the status bits of
  \<open>jack_status_t\<close> that \<open>main\<close> tests (values of \<open>jack/types.h\<close>).\<close>

datatype port_flags = JackPortIsInput | JackPortIsOutput

definition JackNameNotUnique :: "32 word" where
  "JackNameNotUnique = 0x04"

definition JackServerStarted :: "32 word" where
  "JackServerStarted = 0x08"

definition JackServerFailed :: "32 word" where
  "JackServerFailed = 0x10"

definition JACK_DEFAULT_AUDIO_TYPE :: string where
  "JACK_DEFAULT_AUDIO_TYPE = ''32 bit float mono audio''"

text \<open>What the main thread does that can be seen from outside: the calls into the
  server, the sleep, and the text it prints. A \<open>printf\<close> is recorded with its format
  string and arguments; a \<open>cerr <<\<close> or \<open>cout <<\<close> chain with the text it writes.\<close>

datatype stream = Stdout | Stderr

datatype printf_arg = Arg_uint "32 word" | Arg_str string

datatype event =
    Jack_client_open string
  | Jack_get_client_name
  | Jack_set_process_callback
  | Jack_on_shutdown
  | Jack_get_sample_rate
  | Jack_port_register string string port_flags
  | Jack_activate
  | Sleep_for_seconds nat
  | Jack_deactivate
  | Jack_client_close
  | Fprintf stream string "printf_arg list"
  | Write stream string

text \<open>The answers of the server in one run. \<open>jack_port_register\<close> is called once for
  each name, so its answer is a function of the name and the flags.
  \<open>port_get_buffer p nframes\<close> is the pointer \<open>jack_port_get_buffer (p, nframes)\<close>
  returns during a cycle. Nothing in the client says which pointers these are: two
  ports may get the same buffer.\<close>

record jack_server =
  client_open_result :: pointer
  client_open_status :: "32 word"
  client_name_result :: string
  sample_rate :: "32 word"
  port_register_result :: "string \<Rightarrow> port_flags \<Rightarrow> pointer"
  activate_result :: int
  port_get_buffer :: "pointer \<Rightarrow> nat \<Rightarrow> pointer"

text \<open>Lines 29 to 32: the globals, and the actions of the main thread so far.\<close>

record state =
  jack_client :: pointer
  input_ports :: "pointer list"
  output_ports :: "pointer list"
  actions :: "event list"

definition initial :: state where
  "initial = \<lparr>jack_client = 0, input_ports = [], output_ports = [], actions = []\<rparr>"

definition emit :: "event \<Rightarrow> state \<Rightarrow> state" where
  "emit e s = s\<lparr>actions := actions s @ [e]\<rparr>"

text \<open>\<open>operator[]\<close> of a vector beyond its size is undefined behaviour in C++; the
  model stops with a fault there.\<close>

datatype fault = Index_out_of_range

subsection \<open>Text\<close>

text \<open>\<open>ss << i\<close> for an unsigned integer: its decimal digits.\<close>

definition digit_char :: "nat \<Rightarrow> char" where
  "digit_char d = ''0123456789'' ! d"

function decimal :: "nat \<Rightarrow> string" where
  "decimal n = (if n < 10 then [digit_char n] else decimal (n div 10) @ [digit_char (n mod 10)])"
  by pat_completeness auto
termination
  by (relation "measure id") auto

declare decimal.simps [simp del]

definition endl :: string where
  "endl = [CHR 0x0A]"

subsection \<open>The process callback (lines 42 to 54)\<close>

text \<open>\<open>std::copy (first, last, d_first)\<close> with \<open>last = first + n\<close>: it assigns
  \<open>*d_first++ = *first++\<close> from \<open>first\<close> up to \<open>last\<close>. (C++ leaves the call
  undefined when \<open>d_first\<close> lies in \<open>[first, last)\<close>; the model copies forward there
  too.)\<close>

primrec std_copy :: "nat \<Rightarrow> pointer \<Rightarrow> pointer \<Rightarrow> memory \<Rightarrow> memory" where
  "std_copy 0 first d_first m = m"
| "std_copy (Suc n) first d_first m =
     std_copy n (Suc first) (Suc d_first) (m(d_first := m first))"

function process_loop ::
  "jack_server \<Rightarrow> nat \<Rightarrow> state \<Rightarrow> nat \<Rightarrow> memory \<Rightarrow> fault + memory" where
  "process_loop env nframes s port m =
     (if port < num_ports then
        (if port < length (input_ports s) \<and> port < length (output_ports s) then
           (let inp = port_get_buffer env (input_ports s ! port) nframes;
                out = port_get_buffer env (output_ports s ! port) nframes
            in process_loop env nframes s (Suc port) (std_copy nframes inp out m))
         else Inl Index_out_of_range)
      else Inr m)"
  by pat_completeness auto
termination
  by (relation "measure (\<lambda>(env, nframes, s, port, m). num_ports - port)") auto

declare process_loop.simps [simp del]

text \<open>The callback gets the program state and the store, and gives back its return
  value with both. The argument \<open>arg\<close> is not used.\<close>

definition process ::
  "jack_server \<Rightarrow> nat \<Rightarrow> pointer \<Rightarrow> state \<times> memory \<Rightarrow> fault + (int \<times> state \<times> memory)" where
  "process env nframes arg sm =
     (case process_loop env nframes (fst sm) 0 (snd sm) of
        Inl f \<Rightarrow> Inl f
      | Inr m' \<Rightarrow> Inr (0, fst sm, m'))"

subsection \<open>The shutdown callback (lines 60 to 63)\<close>

text \<open>\<open>exit (1)\<close>: the process ends with the status and the state it has then.\<close>

definition jack_shutdown :: "pointer \<Rightarrow> state \<Rightarrow> int \<times> state" where
  "jack_shutdown arg s = (1, s)"

subsection \<open>main (lines 65 to 210)\<close>

text \<open>Each part of \<open>main\<close> either ends the process (\<open>Inl\<close> of the exit status and the
  state at that moment) or goes on with a state.\<close>

text \<open>Lines 67 to 93: opening the client.\<close>

definition main_open :: "jack_server \<Rightarrow> (int \<times> state) + state" where
  "main_open env =
     (let client_name = ''jack_large_number_ports'';
          status = client_open_status env;
          s = emit (Jack_client_open client_name)
                (initial\<lparr>jack_client := client_open_result env\<rparr>)
      in if jack_client s = 0 then
           (let s = emit (Fprintf Stderr
                       (''jack_client_open() failed, status = 0x%2.0x'' @ endl)
                       [Arg_uint status]) s;
                s = (if status AND JackServerFailed \<noteq> 0
                     then emit (Fprintf Stderr
                                  (''Unable to connect to JACK server'' @ endl) []) s
                     else s)
            in Inl (1, s))
         else
           (let s = (if status AND JackServerStarted \<noteq> 0
                     then emit (Fprintf Stderr (''JACK server started'' @ endl) []) s
                     else s);
                s = (if status AND JackNameNotUnique \<noteq> 0
                     then emit (Fprintf Stderr
                                  (''unique name `%s'' @ [CHR 0x27] @ '' assigned'' @ endl)
                                  [Arg_str (client_name_result env)])
                            (emit Jack_get_client_name s)
                     else s)
            in Inr s))"

text \<open>Lines 99 to 112: the two callbacks and the sample rate.\<close>

definition main_callbacks :: "jack_server \<Rightarrow> state \<Rightarrow> state" where
  "main_callbacks env s =
     (let s = emit Jack_set_process_callback s;
          s = emit Jack_on_shutdown s;
          s = emit Jack_get_sample_rate s
      in emit (Fprintf Stdout (''engine sample rate: %u'' @ endl)
                 [Arg_uint (sample_rate env)]) s)"

text \<open>Lines 115 to 131 and 133 to 149: the two registration loops.\<close>

function register_inputs :: "jack_server \<Rightarrow> nat \<Rightarrow> state \<Rightarrow> (int \<times> state) + state" where
  "register_inputs env i s =
     (if i < num_ports then
        (let port_name = ''input-'' @ decimal i;
             tmp_port = port_register_result env port_name JackPortIsInput;
             s = emit (Jack_port_register port_name JACK_DEFAULT_AUDIO_TYPE
                         JackPortIsInput) s
         in if tmp_port = 0 then
              Inl (1, emit (Write Stderr
                              (''Failed to register input port '' @ decimal i @ endl)) s)
            else register_inputs env (Suc i)
                   (s\<lparr>input_ports := input_ports s @ [tmp_port]\<rparr>))
      else Inr s)"
  by pat_completeness auto
termination
  by (relation "measure (\<lambda>(env, i, s). num_ports - i)") auto

declare register_inputs.simps [simp del]

function register_outputs :: "jack_server \<Rightarrow> nat \<Rightarrow> state \<Rightarrow> (int \<times> state) + state" where
  "register_outputs env o' s =
     (if o' < num_ports then
        (let port_name = ''output-'' @ decimal o';
             tmp_port = port_register_result env port_name JackPortIsOutput;
             s = emit (Jack_port_register port_name JACK_DEFAULT_AUDIO_TYPE
                         JackPortIsOutput) s
         in if tmp_port = 0 then
              Inl (1, emit (Write Stderr
                              (''Failed to register output port '' @ decimal o' @ endl)) s)
            else register_outputs env (Suc o')
                   (s\<lparr>output_ports := output_ports s @ [tmp_port]\<rparr>))
      else Inr s)"
  by pat_completeness auto
termination
  by (relation "measure (\<lambda>(env, i, s). num_ports - i)") auto

declare register_outputs.simps [simp del]

text \<open>Lines 155 to 209: activation, the sleep, and the close.\<close>

definition main_run :: "jack_server \<Rightarrow> state \<Rightarrow> int \<times> state" where
  "main_run env s =
     (let s = emit Jack_activate s
      in if activate_result env \<noteq> 0 then
           (1, emit (Fprintf Stderr ''cannot activate client'' []) s)
         else
           (let s = emit (Sleep_for_seconds 60) s;
                s = emit (Write Stdout (''Starting close'' @ endl)) s;
                s = emit Jack_deactivate s;
                s = emit Jack_client_close s
            in (0, s)))"

text \<open>The state at the end of the set-up, when no call has failed.\<close>

definition main_setup :: "jack_server \<Rightarrow> (int \<times> state) + state" where
  "main_setup env =
     (case main_open env of
        Inl e \<Rightarrow> Inl e
      | Inr s \<Rightarrow>
          (case register_inputs env 0 (main_callbacks env s) of
             Inl e \<Rightarrow> Inl e
           | Inr s \<Rightarrow> register_outputs env 0 s))"

definition main :: "jack_server \<Rightarrow> int \<times> state" where
  "main env =
     (case main_setup env of
        Inl e \<Rightarrow> e
      | Inr s \<Rightarrow> main_run env s)"

section \<open>Notions used in the statements\<close>

text \<open>The buffers the server hands out in a cycle of \<open>nframes\<close> frames: \<open>in_buf\<close> and
  \<open>out_buf\<close> are the pointers \<open>in\<close> and \<open>out\<close> of the iteration for port \<open>i\<close>, and
  \<open>span p n\<close> is the set of the addresses of \<open>p[0]\<close> to \<open>p[n - 1]\<close>.\<close>

definition in_buf :: "jack_server \<Rightarrow> state \<Rightarrow> nat \<Rightarrow> nat \<Rightarrow> pointer" where
  "in_buf env s nframes i = port_get_buffer env (input_ports s ! i) nframes"

definition out_buf :: "jack_server \<Rightarrow> state \<Rightarrow> nat \<Rightarrow> nat \<Rightarrow> pointer" where
  "out_buf env s nframes i = port_get_buffer env (output_ports s ! i) nframes"

definition span :: "pointer \<Rightarrow> nat \<Rightarrow> pointer set" where
  "span p n = {p..<p + n}"

text \<open>The first \<open>nframes\<close> samples of all the output buffers.\<close>

definition output_area :: "jack_server \<Rightarrow> state \<Rightarrow> nat \<Rightarrow> pointer set" where
  "output_area env s nframes =
     (\<Union>i\<in>{..<num_ports}. span (out_buf env s nframes i) nframes)"

text \<open>No output buffer shares a sample, among the first \<open>nframes\<close>, with an input
  buffer or with another output buffer. (Input buffers may share theirs.)\<close>

definition buffers_separate :: "jack_server \<Rightarrow> state \<Rightarrow> nat \<Rightarrow> bool" where
  "buffers_separate env s nframes \<longleftrightarrow>
     (\<forall>i\<in>{..<num_ports}. \<forall>j\<in>{..<num_ports}.
        span (out_buf env s nframes i) nframes \<inter> span (in_buf env s nframes j) nframes = {} \<and>
        (i \<noteq> j \<longrightarrow>
           span (out_buf env s nframes i) nframes \<inter> span (out_buf env s nframes j) nframes = {}))"

text \<open>Both vectors hold \<open>num_ports\<close> handles, as they do once the two registration
  loops are through.\<close>

definition ports_registered :: "state \<Rightarrow> bool" where
  "ports_registered s \<longleftrightarrow>
     length (input_ports s) = num_ports \<and> length (output_ports s) = num_ports"

text \<open>What a callback leaves in the store at an address, when it returns.\<close>

definition sample_after :: "fault + (int \<times> state \<times> memory) \<Rightarrow> pointer \<Rightarrow> sample option" where
  "sample_after r a = (case r of Inl f \<Rightarrow> None | Inr (v, s, m) \<Rightarrow> Some (m a))"

text \<open>The names of the ports and the calls that register them.\<close>

definition input_name :: "nat \<Rightarrow> string" where
  "input_name i = ''input-'' @ decimal i"

definition output_name :: "nat \<Rightarrow> string" where
  "output_name i = ''output-'' @ decimal i"

definition register_input :: "nat \<Rightarrow> event" where
  "register_input i = Jack_port_register (input_name i) JACK_DEFAULT_AUDIO_TYPE JackPortIsInput"

definition register_output :: "nat \<Rightarrow> event" where
  "register_output i =
     Jack_port_register (output_name i) JACK_DEFAULT_AUDIO_TYPE JackPortIsOutput"

fun is_register :: "event \<Rightarrow> bool" where
  "is_register (Jack_port_register name type flags) = True"
| "is_register e = False"

text \<open>What the server answers to the registration of the port of an index, and the
  line written when it answers \<open>nullptr\<close>.\<close>

definition input_handle :: "jack_server \<Rightarrow> nat \<Rightarrow> pointer" where
  "input_handle env i = port_register_result env (input_name i) JackPortIsInput"

definition output_handle :: "jack_server \<Rightarrow> nat \<Rightarrow> pointer" where
  "output_handle env i = port_register_result env (output_name i) JackPortIsOutput"

definition input_failure :: "nat \<Rightarrow> event" where
  "input_failure i = Write Stderr (''Failed to register input port '' @ decimal i @ endl)"

definition output_failure :: "nat \<Rightarrow> event" where
  "output_failure i = Write Stderr (''Failed to register output port '' @ decimal i @ endl)"

text \<open>The actions other than a registration, the activation, the deactivation and
  the close.\<close>

fun quiet :: "event \<Rightarrow> bool" where
  "quiet (Jack_port_register name type flags) = False"
| "quiet Jack_activate = False"
| "quiet Jack_deactivate = False"
| "quiet Jack_client_close = False"
| "quiet e = True"

text \<open>The states of the program from the end of the set-up on: the state the two
  registration loops leave, and from there any number of process callbacks (each
  with a frame count and a store of the server's choosing), the shutdown callback,
  and the rest of \<open>main\<close>.\<close>

inductive running :: "jack_server \<Rightarrow> state \<Rightarrow> bool" for env :: jack_server where
  set_up: "main_setup env = Inr s \<Longrightarrow> running env s"
| cycle: "running env s \<Longrightarrow> process env nframes arg (s, m) = Inr (v, s', m') \<Longrightarrow>
          running env s'"
| shutdown: "running env s \<Longrightarrow> jack_shutdown arg s = (v, s') \<Longrightarrow> running env s'"
| finish: "running env s \<Longrightarrow> main_run env s = (v, s') \<Longrightarrow> running env s'"

section \<open>Concrete servers\<close>

text \<open>A server that accepts everything. It reads the index off the name of a port
  and hands out the handles 1 to 1024 for the inputs and 1025 to 2048 for the
  outputs; the buffer of a port lies at 4096 times its handle.\<close>

definition digit_value :: "char \<Rightarrow> nat" where
  "digit_value c = of_char c - 48"

definition number :: "string \<Rightarrow> nat" where
  "number cs = foldl (\<lambda>a c. 10 * a + digit_value c) 0 cs"

definition example_server :: jack_server where
  "example_server =
     \<lparr>client_open_result = 1, client_open_status = 0,
      client_name_result = ''jack_large_number_ports'', sample_rate = 48000,
      port_register_result =
        (\<lambda>name flags. case flags of
             JackPortIsInput \<Rightarrow> 1 + number (drop 6 name)
           | JackPortIsOutput \<Rightarrow> 1025 + number (drop 7 name)),
      activate_result = 0,
      port_get_buffer = (\<lambda>p nframes. 4096 * p)\<rparr>"

definition example_state :: state where
  "example_state =
     \<lparr>jack_client = 1, input_ports = [1..<1025], output_ports = [1025..<2049],
      actions = []\<rparr>"

definition example_memory :: memory where
  "example_memory a = of_nat a"

text \<open>The same server, but the input ports 0 and 2 (handles 1 and 3) get the buffer
  of output port 1 (handle 1026), as when that output is connected to these two
  inputs and the server hands an input with a single connection the buffer of the
  connected output, without copying. In the store only the first sample of input
  port 1 (at \<open>4096 * 2\<close>) is not 0.\<close>

definition aliasing_server :: jack_server where
  "aliasing_server =
     example_server\<lparr>port_get_buffer :=
       (\<lambda>p nframes. if p = 1 \<or> p = 3 then 4096 * 1026 else 4096 * p)\<rparr>"

definition aliasing_memory :: memory where
  "aliasing_memory a = (if a = 4096 * 2 then 7 else 0)"

text \<open>Servers that refuse: the port \<open>output-2\<close>, the client, the activation.\<close>

definition refusing_server :: jack_server where
  "refusing_server =
     example_server\<lparr>port_register_result :=
       (\<lambda>name flags. if name = ''output-2'' then 0
                      else port_register_result example_server name flags)\<rparr>"

definition absent_server :: jack_server where
  "absent_server = example_server\<lparr>client_open_result := 0, client_open_status := 0x11\<rparr>"

definition inactive_server :: jack_server where
  "inactive_server = example_server\<lparr>activate_result := - 1\<rparr>"

section \<open>Properties\<close>

subsection \<open>The copy and the loop of the process callback\<close>

lemma std_copy_outside: "a \<notin> span d n \<Longrightarrow> std_copy n f d m a = m a"
  by (induction n arbitrary: f d m) (auto simp: span_def)

lemma std_copy_inside:
  "span d n \<inter> span f n = {} \<Longrightarrow> k < n \<Longrightarrow> std_copy n f d m (d + k) = m (f + k)"
proof (induction n arbitrary: f d m k)
  case 0
  then show ?case by simp
next
  case (Suc n)
  have sep: "span (Suc d) n \<inter> span (Suc f) n = {}"
    using Suc.prems(1) by (auto simp: span_def)
  show ?case
  proof (cases k)
    case 0
    have "d \<notin> span (Suc d) n" by (simp add: span_def)
    then show ?thesis using 0 by (simp add: std_copy_outside)
  next
    case (Suc k')
    then have "k' < n" using Suc.prems(2) by simp
    from Suc.IH [OF sep this, of "m(d := m f)"]
    have "std_copy n (Suc f) (Suc d) (m(d := m f)) (Suc d + k') = (m(d := m f)) (Suc f + k')" .
    moreover have "Suc f + k' \<noteq> d"
      using Suc.prems(1) \<open>k' < n\<close> by (auto simp: span_def)
    ultimately show ?thesis using Suc by simp
  qed
qed

lemma process_loop_step:
  "port < num_ports \<Longrightarrow> port < length (input_ports s) \<Longrightarrow> port < length (output_ports s) \<Longrightarrow>
   process_loop env nframes s port m =
     process_loop env nframes s (Suc port)
       (std_copy nframes (in_buf env s nframes port) (out_buf env s nframes port) m)"
  by (subst process_loop.simps) (simp add: in_buf_def out_buf_def)

lemma process_loop_done: "num_ports \<le> port \<Longrightarrow> process_loop env nframes s port m = Inr m"
  by (subst process_loop.simps) simp

lemma process_loop_fault:
  "port < num_ports \<Longrightarrow> \<not> (port < length (input_ports s) \<and> port < length (output_ports s)) \<Longrightarrow>
   process_loop env nframes s port m = Inl Index_out_of_range"
  by (subst process_loop.simps) auto

lemma process_loop_returns:
  "num_ports \<le> length (input_ports s) \<Longrightarrow> num_ports \<le> length (output_ports s) \<Longrightarrow>
   \<exists>m'. process_loop env nframes s port m = Inr m'"
proof (induction env nframes s port m rule: process_loop.induct)
  case (1 env nframes s port m)
  show ?case
  proof (cases "port < num_ports")
    case True
    then show ?thesis using 1 by (simp add: process_loop_step in_buf_def out_buf_def)
  next
    case False
    then show ?thesis by (simp add: process_loop_done)
  qed
qed

lemma process_loop_frame:
  "process_loop env nframes s port m = Inr m' \<Longrightarrow>
   \<forall>j. port \<le> j \<and> j < num_ports \<longrightarrow> a \<notin> span (out_buf env s nframes j) nframes \<Longrightarrow>
   m' a = m a"
proof (induction env nframes s port m rule: process_loop.induct)
  case (1 env nframes s port m)
  show ?case
  proof (cases "port < num_ports")
    case False
    then show ?thesis using "1.prems" by (simp add: process_loop_done)
  next
    case True
    show ?thesis
    proof (cases "port < length (input_ports s) \<and> port < length (output_ports s)")
      case False
      then show ?thesis using True "1.prems" by (simp add: process_loop_fault)
    next
      case inrange: True
      let ?m1 = "std_copy nframes (in_buf env s nframes port) (out_buf env s nframes port) m"
      have run: "process_loop env nframes s (Suc port) ?m1 = Inr m'"
        using "1.prems"(1) True inrange by (simp add: process_loop_step)
      have "m' a = ?m1 a"
        using "1.IH" [OF True inrange refl refl] run "1.prems"(2)
        by (simp add: in_buf_def out_buf_def)
      moreover have "a \<notin> span (out_buf env s nframes port) nframes"
        using "1.prems"(2) True by simp
      ultimately show ?thesis by (simp add: std_copy_outside)
    qed
  qed
qed


lemma process_loop_copy:
  "process_loop env nframes s port m = Inr m' \<Longrightarrow> buffers_separate env s nframes \<Longrightarrow>
   port \<le> i \<Longrightarrow> i < num_ports \<Longrightarrow> k < nframes \<Longrightarrow>
   m' (out_buf env s nframes i + k) = m (in_buf env s nframes i + k)"
proof (induction env nframes s port m rule: process_loop.induct)
  case (1 env nframes s port m)
  have port: "port < num_ports" using "1.prems" by simp
  show ?case
  proof (cases "port < length (input_ports s) \<and> port < length (output_ports s)")
    case False
    then show ?thesis using port "1.prems"(1) by (simp add: process_loop_fault)
  next
    case inrange: True
    let ?inp = "in_buf env s nframes port" and ?out = "out_buf env s nframes port"
    let ?m1 = "std_copy nframes ?inp ?out m"
    have run: "process_loop env nframes s (Suc port) ?m1 = Inr m'"
      using "1.prems"(1) port inrange by (simp add: process_loop_step)
    have sep: "\<And>a b. a < num_ports \<Longrightarrow> b < num_ports \<Longrightarrow>
        span (out_buf env s nframes a) nframes \<inter> span (in_buf env s nframes b) nframes = {} \<and>
        (a \<noteq> b \<longrightarrow> span (out_buf env s nframes a) nframes \<inter> span (out_buf env s nframes b) nframes = {})"
      using "1.prems"(2) by (simp add: buffers_separate_def)
    have here: "out_buf env s nframes i + k \<in> span (out_buf env s nframes i) nframes"
      and there: "in_buf env s nframes i + k \<in> span (in_buf env s nframes i) nframes"
      using "1.prems"(5) by (simp_all add: span_def)
    show ?thesis
    proof (cases "i = port")
      case True
      have "\<forall>j. Suc port \<le> j \<and> j < num_ports \<longrightarrow>
              out_buf env s nframes i + k \<notin> span (out_buf env s nframes j) nframes"
        using sep [of i] here True port by fastforce
      then have "m' (?out + k) = ?m1 (?out + k)"
        using process_loop_frame [OF run] True by simp
      also have "\<dots> = m (?inp + k)"
        using sep [OF port port] "1.prems"(5) by (simp add: std_copy_inside)
      finally show ?thesis using True by simp
    next
      case False
      then have "Suc port \<le> i" using "1.prems"(3) by simp
      from "1.IH" [OF port inrange refl refl _ "1.prems"(2) this "1.prems"(4,5)] run
      have "m' (out_buf env s nframes i + k) = ?m1 (in_buf env s nframes i + k)"
        by (simp add: in_buf_def out_buf_def)
      moreover have "in_buf env s nframes i + k \<notin> span ?out nframes"
        using sep [OF port "1.prems"(4)] there by blast
      ultimately show ?thesis by (simp add: std_copy_outside)
    qed
  qed
qed

lemma process_result:
  "ports_registered s \<Longrightarrow>
   \<exists>m'. process env nframes arg (s, m) = Inr (0, s, m') \<and>
         process_loop env nframes s 0 m = Inr m'"
  using process_loop_returns [of s env nframes 0 m]
  by (auto simp: process_def ports_registered_def)

lemma std_copy_0: "std_copy 0 f d m = m"
  by simp

lemma process_loop_no_frames: "process_loop env 0 s port m = Inr m' \<Longrightarrow> m' = m"
  by (rule ext) (erule process_loop_frame, simp add: span_def)

subsection \<open>The registration loop of the input ports\<close>

lemma register_inputs_done: "num_ports \<le> i \<Longrightarrow> register_inputs env i s = Inr s"
  by (subst register_inputs.simps) simp

lemma register_inputs_fail:
  "i < num_ports \<Longrightarrow> input_handle env i = 0 \<Longrightarrow>
   register_inputs env i s = Inl (1, emit (input_failure i) (emit (register_input i) s))"
  by (subst register_inputs.simps)
    (simp add: input_handle_def input_name_def register_input_def input_failure_def Let_def)

lemma register_inputs_next:
  "i < num_ports \<Longrightarrow> input_handle env i \<noteq> 0 \<Longrightarrow>
   register_inputs env i s =
     register_inputs env (Suc i)
       (s\<lparr>input_ports := input_ports s @ [input_handle env i],
          actions := actions s @ [register_input i]\<rparr>)"
  by (subst register_inputs.simps, cases s)
    (simp add: input_handle_def input_name_def register_input_def emit_def Let_def)

lemma register_inputs_cases:
  "(register_inputs env i s =
      Inr (s\<lparr>input_ports := input_ports s @ map (input_handle env) [i..<num_ports],
             actions := actions s @ map register_input [i..<num_ports]\<rparr>) \<and>
    (\<forall>j. i \<le> j \<and> j < num_ports \<longrightarrow> input_handle env j \<noteq> 0)) \<or>
   (\<exists>k. i \<le> k \<and> k < num_ports \<and> input_handle env k = 0 \<and>
      (\<forall>j. i \<le> j \<and> j < k \<longrightarrow> input_handle env j \<noteq> 0) \<and>
      register_inputs env i s =
        Inl (1, s\<lparr>input_ports := input_ports s @ map (input_handle env) [i..<k],
                  actions := actions s @ map register_input [i..<k] @
                             [register_input k, input_failure k]\<rparr>))"
proof (induction "num_ports - i" arbitrary: i s)
  case 0
  then show ?case by (simp add: register_inputs_done)
next
  case (Suc d)
  then have i: "i < num_ports" and d: "d = num_ports - Suc i" by simp_all
  show ?case
  proof (cases "input_handle env i = 0")
    case True
    then have "register_inputs env i s =
        Inl (1, s\<lparr>input_ports := input_ports s @ map (input_handle env) [i..<i],
                  actions := actions s @ map register_input [i..<i] @
                             [register_input i, input_failure i]\<rparr>)"
      using i by (simp add: register_inputs_fail emit_def)
    then show ?thesis using i True by (intro disjI2 exI [of _ i]) simp
  next
    case False
    let ?s1 = "s\<lparr>input_ports := input_ports s @ [input_handle env i],
                  actions := actions s @ [register_input i]\<rparr>"
    have step: "register_inputs env i s = register_inputs env (Suc i) ?s1"
      using i False by (rule register_inputs_next)
    have upt: "[i..<num_ports] = i # [Suc i..<num_ports]"
      using i by (simp add: upt_conv_Cons)
    from Suc.hyps(1) [OF d, of ?s1] show ?thesis
    proof
      assume ok: "register_inputs env (Suc i) ?s1 =
          Inr (?s1\<lparr>input_ports := input_ports ?s1 @ map (input_handle env) [Suc i..<num_ports],
                    actions := actions ?s1 @ map register_input [Suc i..<num_ports]\<rparr>) \<and>
          (\<forall>j. Suc i \<le> j \<and> j < num_ports \<longrightarrow> input_handle env j \<noteq> 0)"
      have "\<forall>j. i \<le> j \<and> j < num_ports \<longrightarrow> input_handle env j \<noteq> 0"
        using ok False by (metis Suc_leI le_neq_implies_less)
      then show ?thesis using ok step upt by simp
    next
      assume "\<exists>k. Suc i \<le> k \<and> k < num_ports \<and> input_handle env k = 0 \<and>
          (\<forall>j. Suc i \<le> j \<and> j < k \<longrightarrow> input_handle env j \<noteq> 0) \<and>
          register_inputs env (Suc i) ?s1 =
            Inl (1, ?s1\<lparr>input_ports := input_ports ?s1 @ map (input_handle env) [Suc i..<k],
                         actions := actions ?s1 @ map register_input [Suc i..<k] @
                                    [register_input k, input_failure k]\<rparr>)"
      then obtain k where k: "Suc i \<le> k" "k < num_ports" "input_handle env k = 0"
        and least: "\<forall>j. Suc i \<le> j \<and> j < k \<longrightarrow> input_handle env j \<noteq> 0"
        and res: "register_inputs env (Suc i) ?s1 =
            Inl (1, ?s1\<lparr>input_ports := input_ports ?s1 @ map (input_handle env) [Suc i..<k],
                         actions := actions ?s1 @ map register_input [Suc i..<k] @
                                    [register_input k, input_failure k]\<rparr>)"
        by blast
      have "[i..<k] = i # [Suc i..<k]" using k(1) by (simp add: upt_conv_Cons)
      then have "register_inputs env i s =
          Inl (1, s\<lparr>input_ports := input_ports s @ map (input_handle env) [i..<k],
                    actions := actions s @ map register_input [i..<k] @
                               [register_input k, input_failure k]\<rparr>)"
        using step res by simp
      moreover have "i \<le> k" using k(1) by simp
      moreover have "\<forall>j. i \<le> j \<and> j < k \<longrightarrow> input_handle env j \<noteq> 0"
        using least False by (metis Suc_leI le_neq_implies_less)
      ultimately show ?thesis using k(2,3) by blast
    qed
  qed
qed

subsection \<open>The registration loop of the output ports, and the set-up\<close>

lemma register_outputs_done: "num_ports \<le> i \<Longrightarrow> register_outputs env i s = Inr s"
  by (subst register_outputs.simps) simp

lemma register_outputs_fail:
  "i < num_ports \<Longrightarrow> output_handle env i = 0 \<Longrightarrow>
   register_outputs env i s = Inl (1, emit (output_failure i) (emit (register_output i) s))"
  by (subst register_outputs.simps)
    (simp add: output_handle_def output_name_def register_output_def output_failure_def Let_def)

lemma register_outputs_next:
  "i < num_ports \<Longrightarrow> output_handle env i \<noteq> 0 \<Longrightarrow>
   register_outputs env i s =
     register_outputs env (Suc i)
       (s\<lparr>output_ports := output_ports s @ [output_handle env i],
          actions := actions s @ [register_output i]\<rparr>)"
  by (subst register_outputs.simps, cases s)
    (simp add: output_handle_def output_name_def register_output_def emit_def Let_def)

lemma register_outputs_cases:
  "(register_outputs env i s =
      Inr (s\<lparr>output_ports := output_ports s @ map (output_handle env) [i..<num_ports],
             actions := actions s @ map register_output [i..<num_ports]\<rparr>) \<and>
    (\<forall>j. i \<le> j \<and> j < num_ports \<longrightarrow> output_handle env j \<noteq> 0)) \<or>
   (\<exists>k. i \<le> k \<and> k < num_ports \<and> output_handle env k = 0 \<and>
      (\<forall>j. i \<le> j \<and> j < k \<longrightarrow> output_handle env j \<noteq> 0) \<and>
      register_outputs env i s =
        Inl (1, s\<lparr>output_ports := output_ports s @ map (output_handle env) [i..<k],
                  actions := actions s @ map register_output [i..<k] @
                             [register_output k, output_failure k]\<rparr>))"
proof (induction "num_ports - i" arbitrary: i s)
  case 0
  then show ?case by (simp add: register_outputs_done)
next
  case (Suc d)
  then have i: "i < num_ports" and d: "d = num_ports - Suc i" by simp_all
  show ?case
  proof (cases "output_handle env i = 0")
    case True
    then have "register_outputs env i s =
        Inl (1, s\<lparr>output_ports := output_ports s @ map (output_handle env) [i..<i],
                  actions := actions s @ map register_output [i..<i] @
                             [register_output i, output_failure i]\<rparr>)"
      using i by (simp add: register_outputs_fail emit_def)
    then show ?thesis using i True by (intro disjI2 exI [of _ i]) simp
  next
    case False
    let ?s1 = "s\<lparr>output_ports := output_ports s @ [output_handle env i],
                  actions := actions s @ [register_output i]\<rparr>"
    have step: "register_outputs env i s = register_outputs env (Suc i) ?s1"
      using i False by (rule register_outputs_next)
    have upt: "[i..<num_ports] = i # [Suc i..<num_ports]"
      using i by (simp add: upt_conv_Cons)
    from Suc.hyps(1) [OF d, of ?s1] show ?thesis
    proof
      assume ok: "register_outputs env (Suc i) ?s1 =
          Inr (?s1\<lparr>output_ports := output_ports ?s1 @ map (output_handle env) [Suc i..<num_ports],
                    actions := actions ?s1 @ map register_output [Suc i..<num_ports]\<rparr>) \<and>
          (\<forall>j. Suc i \<le> j \<and> j < num_ports \<longrightarrow> output_handle env j \<noteq> 0)"
      have "\<forall>j. i \<le> j \<and> j < num_ports \<longrightarrow> output_handle env j \<noteq> 0"
        using ok False by (metis Suc_leI le_neq_implies_less)
      then show ?thesis using ok step upt by simp
    next
      assume "\<exists>k. Suc i \<le> k \<and> k < num_ports \<and> output_handle env k = 0 \<and>
          (\<forall>j. Suc i \<le> j \<and> j < k \<longrightarrow> output_handle env j \<noteq> 0) \<and>
          register_outputs env (Suc i) ?s1 =
            Inl (1, ?s1\<lparr>output_ports := output_ports ?s1 @ map (output_handle env) [Suc i..<k],
                         actions := actions ?s1 @ map register_output [Suc i..<k] @
                                    [register_output k, output_failure k]\<rparr>)"
      then obtain k where k: "Suc i \<le> k" "k < num_ports" "output_handle env k = 0"
        and least: "\<forall>j. Suc i \<le> j \<and> j < k \<longrightarrow> output_handle env j \<noteq> 0"
        and res: "register_outputs env (Suc i) ?s1 =
            Inl (1, ?s1\<lparr>output_ports := output_ports ?s1 @ map (output_handle env) [Suc i..<k],
                         actions := actions ?s1 @ map register_output [Suc i..<k] @
                                    [register_output k, output_failure k]\<rparr>)"
        by blast
      have "[i..<k] = i # [Suc i..<k]" using k(1) by (simp add: upt_conv_Cons)
      then have "register_outputs env i s =
          Inl (1, s\<lparr>output_ports := output_ports s @ map (output_handle env) [i..<k],
                    actions := actions s @ map register_output [i..<k] @
                               [register_output k, output_failure k]\<rparr>)"
        using step res by simp
      moreover have "i \<le> k" using k(1) by simp
      moreover have "\<forall>j. i \<le> j \<and> j < k \<longrightarrow> output_handle env j \<noteq> 0"
        using least False by (metis Suc_leI le_neq_implies_less)
      ultimately show ?thesis using k(2,3) by blast
    qed
  qed
qed


lemma quiet_simps: "quiet e \<Longrightarrow> \<not> is_register e \<and> e \<noteq> Jack_activate \<and> e \<noteq> Jack_deactivate \<and> e \<noteq> Jack_client_close"
  by (cases e) simp_all

lemma main_open_fails:
  "client_open_result env = 0 \<Longrightarrow>
   main_open env =
     Inl (1, \<lparr>jack_client = 0, input_ports = [], output_ports = [],
              actions =
                [Jack_client_open ''jack_large_number_ports'',
                 Fprintf Stderr (''jack_client_open() failed, status = 0x%2.0x'' @ endl)
                   [Arg_uint (client_open_status env)]] @
                (if client_open_status env AND JackServerFailed \<noteq> 0
                 then [Fprintf Stderr (''Unable to connect to JACK server'' @ endl) []]
                 else [])\<rparr>)"
  by (simp add: main_open_def Let_def emit_def initial_def)

lemma main_open_succeeds:
  "client_open_result env \<noteq> 0 \<Longrightarrow>
   \<exists>pre. list_all quiet pre \<and>
     main_open env =
       Inr \<lparr>jack_client = client_open_result env, input_ports = [], output_ports = [],
            actions = pre\<rparr>"
  by (simp add: main_open_def Let_def emit_def initial_def)

lemma main_callbacks_actions:
  "\<exists>cbs. list_all quiet cbs \<and> main_callbacks env s = s\<lparr>actions := actions s @ cbs\<rparr>"
  by (rule exI [of _ "[Jack_set_process_callback, Jack_on_shutdown, Jack_get_sample_rate,
        Fprintf Stdout (''engine sample rate: %u'' @ endl) [Arg_uint (sample_rate env)]]"])
    (simp add: main_callbacks_def Let_def emit_def)

lemma main_run_eq:
  "main_run env s =
     (if activate_result env \<noteq> 0
      then (1, s\<lparr>actions := actions s @
                   [Jack_activate, Fprintf Stderr ''cannot activate client'' []]\<rparr>)
      else (0, s\<lparr>actions := actions s @
                   [Jack_activate, Sleep_for_seconds 60,
                    Write Stdout (''Starting close'' @ endl),
                    Jack_deactivate, Jack_client_close]\<rparr>))"
  by (simp add: main_run_def Let_def emit_def)

lemma main_setup_cases [case_names open_failed input_failed output_failed ready]:
  obtains
    (open_failed) s where "client_open_result env = 0"
      and "list_all quiet (actions s)" and "main_setup env = Inl (1, s)"
  | (input_failed) k pre where "client_open_result env \<noteq> 0"
      and "k < num_ports" and "input_handle env k = 0" and "list_all quiet pre"
      and "\<forall>j<k. input_handle env j \<noteq> 0"
      and "main_setup env =
             Inl (1, \<lparr>jack_client = client_open_result env,
                      input_ports = map (input_handle env) [0..<k], output_ports = [],
                      actions = pre @ map register_input [0..<k] @
                                [register_input k, input_failure k]\<rparr>)"
  | (output_failed) k pre where "client_open_result env \<noteq> 0"
      and "k < num_ports" and "output_handle env k = 0" and "list_all quiet pre"
      and "\<forall>j<num_ports. input_handle env j \<noteq> 0" and "\<forall>j<k. output_handle env j \<noteq> 0"
      and "main_setup env =
             Inl (1, \<lparr>jack_client = client_open_result env,
                      input_ports = map (input_handle env) [0..<num_ports],
                      output_ports = map (output_handle env) [0..<k],
                      actions = pre @ map register_input [0..<num_ports] @
                                map register_output [0..<k] @
                                [register_output k, output_failure k]\<rparr>)"
  | (ready) pre where "client_open_result env \<noteq> 0"
      and "\<forall>j<num_ports. input_handle env j \<noteq> 0 \<and> output_handle env j \<noteq> 0"
      and "list_all quiet pre"
      and "main_setup env =
             Inr \<lparr>jack_client = client_open_result env,
                  input_ports = map (input_handle env) [0..<num_ports],
                  output_ports = map (output_handle env) [0..<num_ports],
                  actions = pre @ map register_input [0..<num_ports] @
                            map register_output [0..<num_ports]\<rparr>"
proof (cases "client_open_result env = 0")
  case True
  let ?s = "\<lparr>jack_client = 0, input_ports = [], output_ports = [],
              actions =
                [Jack_client_open ''jack_large_number_ports'',
                 Fprintf Stderr (''jack_client_open() failed, status = 0x%2.0x'' @ endl)
                   [Arg_uint (client_open_status env)]] @
                (if client_open_status env AND JackServerFailed \<noteq> 0
                 then [Fprintf Stderr (''Unable to connect to JACK server'' @ endl) []]
                 else [])\<rparr>"
  have "main_setup env = Inl (1, ?s)"
    using True by (simp add: main_open_fails main_setup_def)
  moreover have "list_all quiet (actions ?s)" by simp
  ultimately show ?thesis using open_failed [OF True] by blast
next
  case opened: False
  from main_open_succeeds [OF opened] obtain pre0 where pre0: "list_all quiet pre0"
    and op: "main_open env =
       Inr \<lparr>jack_client = client_open_result env, input_ports = [], output_ports = [],
            actions = pre0\<rparr>"
    by blast
  let ?s0 = "\<lparr>jack_client = client_open_result env, input_ports = [], output_ports = [],
            actions = pre0\<rparr>"
  from main_callbacks_actions [of env ?s0] obtain cbs where cbs: "list_all quiet cbs"
    and cb: "main_callbacks env ?s0 = ?s0\<lparr>actions := actions ?s0 @ cbs\<rparr>"
    by blast
  let ?pre = "pre0 @ cbs"
  let ?s1 = "\<lparr>jack_client = client_open_result env, input_ports = [], output_ports = [],
            actions = ?pre\<rparr>"
  have pre: "list_all quiet ?pre" using pre0 cbs by simp
  have s1: "main_callbacks env ?s0 = ?s1" using cb by simp
  have su: "main_setup env =
      (case register_inputs env 0 ?s1 of Inl e \<Rightarrow> Inl e | Inr s \<Rightarrow> register_outputs env 0 s)"
    by (simp add: main_setup_def op s1)
  from register_inputs_cases [of env 0 ?s1] show ?thesis
  proof (elim disjE conjE exE)
    fix k
    assume "k < num_ports" "input_handle env k = 0"
      and "\<forall>j. 0 \<le> j \<and> j < k \<longrightarrow> input_handle env j \<noteq> 0"
      and "register_inputs env 0 ?s1 =
        Inl (1, ?s1\<lparr>input_ports := input_ports ?s1 @ map (input_handle env) [0..<k],
                  actions := actions ?s1 @ map register_input [0..<k] @
                             [register_input k, input_failure k]\<rparr>)"
    then show ?thesis
      using input_failed [OF opened _ _ pre, of k] su by simp
  next
    assume ins: "register_inputs env 0 ?s1 =
        Inr (?s1\<lparr>input_ports := input_ports ?s1 @ map (input_handle env) [0..<num_ports],
             actions := actions ?s1 @ map register_input [0..<num_ports]\<rparr>)"
      and ins_ok: "\<forall>j. 0 \<le> j \<and> j < num_ports \<longrightarrow> input_handle env j \<noteq> 0"
    let ?s2 = "\<lparr>jack_client = client_open_result env,
                 input_ports = map (input_handle env) [0..<num_ports], output_ports = [],
                 actions = ?pre @ map register_input [0..<num_ports]\<rparr>"
    have su2: "main_setup env = register_outputs env 0 ?s2"
      using su ins by simp
    from register_outputs_cases [of env 0 ?s2] show ?thesis
    proof (elim disjE conjE exE)
      fix k
      assume "k < num_ports" "output_handle env k = 0"
        and "\<forall>j. 0 \<le> j \<and> j < k \<longrightarrow> output_handle env j \<noteq> 0"
        and "register_outputs env 0 ?s2 =
          Inl (1, ?s2\<lparr>output_ports := output_ports ?s2 @ map (output_handle env) [0..<k],
                    actions := actions ?s2 @ map register_output [0..<k] @
                               [register_output k, output_failure k]\<rparr>)"
      then show ?thesis
        using output_failed [OF opened _ _ pre, of k] su2 ins_ok by simp
    next
      assume "register_outputs env 0 ?s2 =
          Inr (?s2\<lparr>output_ports := output_ports ?s2 @ map (output_handle env) [0..<num_ports],
               actions := actions ?s2 @ map register_output [0..<num_ports]\<rparr>)"
        and "\<forall>j. 0 \<le> j \<and> j < num_ports \<longrightarrow> output_handle env j \<noteq> 0"
      then show ?thesis
        using ready [OF opened _ pre] su2 ins_ok by simp
    qed
  qed
qed

subsection \<open>The runs of main\<close>

lemma quiet_list:
  "list_all quiet xs \<Longrightarrow>
   Jack_activate \<notin> set xs \<and> Jack_deactivate \<notin> set xs \<and> Jack_client_close \<notin> set xs \<and>
   Jack_port_register name type flags \<notin> set xs \<and> filter is_register xs = [] \<and>
   takeWhile (\<lambda>e. e \<noteq> Jack_activate) (xs @ ys) = xs @ takeWhile (\<lambda>e. e \<noteq> Jack_activate) ys"
  by (induction xs) (auto dest: quiet_simps)

lemma register_input_facts:
  "is_register (register_input i)" "\<not> quiet (register_input i)"
  "register_input i \<noteq> Jack_activate" "Jack_activate \<noteq> register_input i"
  "register_input i \<noteq> Jack_deactivate" "Jack_deactivate \<noteq> register_input i"
  "register_input i \<noteq> Jack_client_close" "Jack_client_close \<noteq> register_input i"
  by (simp_all add: register_input_def)

lemma register_output_facts:
  "is_register (register_output i)" "\<not> quiet (register_output i)"
  "register_output i \<noteq> Jack_activate" "Jack_activate \<noteq> register_output i"
  "register_output i \<noteq> Jack_deactivate" "Jack_deactivate \<noteq> register_output i"
  "register_output i \<noteq> Jack_client_close" "Jack_client_close \<noteq> register_output i"
  by (simp_all add: register_output_def)

lemma failure_facts:
  "\<not> is_register (input_failure i)" "Jack_activate \<noteq> input_failure i"
  "Jack_deactivate \<noteq> input_failure i" "Jack_client_close \<noteq> input_failure i"
  "\<not> is_register (output_failure i)" "Jack_activate \<noteq> output_failure i"
  "Jack_deactivate \<noteq> output_failure i" "Jack_client_close \<noteq> output_failure i"
  by (simp_all add: input_failure_def output_failure_def)

lemma filter_registrations:
  "filter is_register (map register_input xs) = map register_input xs"
  "filter is_register (map register_output xs) = map register_output xs"
  by (induction xs) (simp_all add: register_input_facts register_output_facts)

lemma takeWhile_registrations:
  "takeWhile (\<lambda>e. e \<noteq> Jack_activate) (map register_input xs @ ys) =
     map register_input xs @ takeWhile (\<lambda>e. e \<noteq> Jack_activate) ys"
  "takeWhile (\<lambda>e. e \<noteq> Jack_activate) (map register_output xs @ ys) =
     map register_output xs @ takeWhile (\<lambda>e. e \<noteq> Jack_activate) ys"
  by (induction xs) (simp_all add: register_input_facts register_output_facts)

lemma registrations_set:
  "Jack_activate \<notin> register_input ` A" "Jack_activate \<notin> register_output ` A"
  "Jack_deactivate \<notin> register_input ` A" "Jack_deactivate \<notin> register_output ` A"
  "Jack_client_close \<notin> register_input ` A" "Jack_client_close \<notin> register_output ` A"
  by (auto simp: register_input_def register_output_def)

lemmas registrations_list = filter_registrations takeWhile_registrations registrations_set

text \<open>The run of main when the set-up goes through.\<close>

lemma main_ready:
  assumes "client_open_result env \<noteq> 0"
    and "\<forall>j<num_ports. input_handle env j \<noteq> 0 \<and> output_handle env j \<noteq> 0"
  shows "\<exists>pre. list_all quiet pre \<and>
     main env =
       (if activate_result env \<noteq> 0 then 1 else 0,
        \<lparr>jack_client = client_open_result env,
         input_ports = map (input_handle env) [0..<num_ports],
         output_ports = map (output_handle env) [0..<num_ports],
         actions = pre @ map register_input [0..<num_ports] @
                   map register_output [0..<num_ports] @
                   Jack_activate #
                   (if activate_result env \<noteq> 0
                    then [Fprintf Stderr ''cannot activate client'' []]
                    else [Sleep_for_seconds 60, Write Stdout (''Starting close'' @ endl),
                          Jack_deactivate, Jack_client_close])\<rparr>)"
proof (cases env rule: main_setup_cases)
  case (ready pre)
  then show ?thesis by (auto simp: main_def main_run_eq)
qed (use assms in auto)

lemma main_not_ready:
  assumes "\<not> (client_open_result env \<noteq> 0 \<and>
              (\<forall>j<num_ports. input_handle env j \<noteq> 0 \<and> output_handle env j \<noteq> 0))"
  shows "fst (main env) = 1 \<and> main_setup env = Inl (main env) \<and>
         Jack_activate \<notin> set (actions (snd (main env))) \<and>
         Jack_deactivate \<notin> set (actions (snd (main env))) \<and>
         Jack_client_close \<notin> set (actions (snd (main env)))"
proof (cases env rule: main_setup_cases)
  case (open_failed s)
  then show ?thesis by (simp add: main_def quiet_list)
next
  case (input_failed k pre)
  then show ?thesis
    by (simp add: main_def quiet_list registrations_list register_input_facts failure_facts)
next
  case (output_failed k pre)
  then show ?thesis
    by (simp add: main_def quiet_list registrations_list register_output_facts failure_facts)
next
  case (ready pre)
  then show ?thesis using assms by simp
qed

lemma activation_reached:
  "Jack_activate \<in> set (actions (snd (main env))) \<longleftrightarrow>
   client_open_result env \<noteq> 0 \<and>
   (\<forall>j<num_ports. input_handle env j \<noteq> 0 \<and> output_handle env j \<noteq> 0)"
proof
  assume reached: "Jack_activate \<in> set (actions (snd (main env)))"
  show "client_open_result env \<noteq> 0 \<and>
      (\<forall>j<num_ports. input_handle env j \<noteq> 0 \<and> output_handle env j \<noteq> 0)"
  proof (rule ccontr)
    assume "\<not> (client_open_result env \<noteq> 0 \<and>
      (\<forall>j<num_ports. input_handle env j \<noteq> 0 \<and> output_handle env j \<noteq> 0))"
    from main_not_ready [OF this] reached show False by simp
  qed
next
  assume "client_open_result env \<noteq> 0 \<and>
      (\<forall>j<num_ports. input_handle env j \<noteq> 0 \<and> output_handle env j \<noteq> 0)"
  then obtain pre where "actions (snd (main env)) =
      pre @ map register_input [0..<num_ports] @ map register_output [0..<num_ports] @
      Jack_activate #
      (if activate_result env \<noteq> 0
       then [Fprintf Stderr ''cannot activate client'' []]
       else [Sleep_for_seconds 60, Write Stdout (''Starting close'' @ endl),
             Jack_deactivate, Jack_client_close])"
    using main_ready [of env] by force
  then show "Jack_activate \<in> set (actions (snd (main env)))" by simp
qed

subsection \<open>Activation, failure to open, completion\<close>

lemma names_evaluated:
  "input_name 0 = ''input-0''" "input_name 1023 = ''input-1023''"
  "output_name 0 = ''output-0''" "output_name 1023 = ''output-1023''"
  by (simp_all add: input_name_def output_name_def decimal.simps digit_char_def)

lemma num_ports_pos: "2 < num_ports"
  by (simp add: num_ports_def)

text \<open>
  Claim C2. In every run that reaches the activation, the registrations made before
  the call of \<open>jack_activate\<close> are exactly those of \<open>input-0\<close> to \<open>input-1023\<close>
  followed by those of \<open>output-0\<close> to \<open>output-1023\<close>, in this order, and the two
  vectors hold the 1024 handles the server returned for them, in the same order, none
  of them null.
\<close>

theorem registration_before_activation:
  assumes "Jack_activate \<in> set (actions (snd (main env)))"
  shows "filter is_register (takeWhile (\<lambda>e. e \<noteq> Jack_activate) (actions (snd (main env)))) =
           map register_input [0..<num_ports] @ map register_output [0..<num_ports] \<and>
         input_ports (snd (main env)) = map (input_handle env) [0..<num_ports] \<and>
         output_ports (snd (main env)) = map (output_handle env) [0..<num_ports] \<and>
         length (input_ports (snd (main env))) = 1024 \<and>
         length (output_ports (snd (main env))) = 1024 \<and>
         0 \<notin> set (input_ports (snd (main env))) \<and>
         0 \<notin> set (output_ports (snd (main env))) \<and>
         input_name 0 = ''input-0'' \<and> input_name 1023 = ''input-1023'' \<and>
         output_name 0 = ''output-0'' \<and> output_name 1023 = ''output-1023''"
proof -
  from assms have opened: "client_open_result env \<noteq> 0"
    and handles: "\<forall>j<num_ports. input_handle env j \<noteq> 0 \<and> output_handle env j \<noteq> 0"
    by (simp_all add: activation_reached)
  from main_ready [OF this] obtain pre tail where pre: "list_all quiet pre"
    and run: "snd (main env) =
        \<lparr>jack_client = client_open_result env,
         input_ports = map (input_handle env) [0..<num_ports],
         output_ports = map (output_handle env) [0..<num_ports],
         actions = pre @ map register_input [0..<num_ports] @
                   map register_output [0..<num_ports] @ Jack_activate # tail\<rparr>"
    by force
  have "filter is_register (takeWhile (\<lambda>e. e \<noteq> Jack_activate) (actions (snd (main env)))) =
      map register_input [0..<num_ports] @ map register_output [0..<num_ports]"
    using pre by (simp add: run quiet_list registrations_list)
  moreover have "length (input_ports (snd (main env))) = 1024"
    and "length (output_ports (snd (main env))) = 1024"
    by (simp_all add: run num_ports_def)
  moreover have "0 \<notin> set (input_ports (snd (main env)))"
    and "0 \<notin> set (output_ports (snd (main env)))"
    using handles by (auto simp: run)
  ultimately show ?thesis by (simp add: run names_evaluated)
qed

lemma example_handles:
  "input_handle example_server i \<noteq> 0" "output_handle example_server i \<noteq> 0"
  "input_handle inactive_server i \<noteq> 0" "output_handle inactive_server i \<noteq> 0"
  "input_handle refusing_server i \<noteq> 0"
  by (simp_all add: input_handle_def output_handle_def example_server_def inactive_server_def
      refusing_server_def input_name_def)

lemma example_opens:
  "client_open_result example_server \<noteq> 0" "client_open_result inactive_server \<noteq> 0"
  "client_open_result refusing_server \<noteq> 0" "client_open_result absent_server = 0"
  "activate_result example_server = 0" "activate_result inactive_server \<noteq> 0"
  by (simp_all add: example_server_def inactive_server_def refusing_server_def
      absent_server_def)

text \<open>The server that accepts everything reaches the activation.\<close>

theorem registration_before_activation_witness:
  "Jack_activate \<in> set (actions (snd (main example_server))) \<and>
   filter is_register
     (takeWhile (\<lambda>e. e \<noteq> Jack_activate) (actions (snd (main example_server)))) =
     map register_input [0..<num_ports] @ map register_output [0..<num_ports] \<and>
   length (input_ports (snd (main example_server))) = 1024 \<and>
   length (output_ports (snd (main example_server))) = 1024 \<and>
   0 \<notin> set (input_ports (snd (main example_server))) \<and>
   0 \<notin> set (output_ports (snd (main example_server)))"
proof -
  have reached: "Jack_activate \<in> set (actions (snd (main example_server)))"
    by (simp add: activation_reached example_handles example_opens)
  from registration_before_activation [OF reached] reached show ?thesis by blast
qed

text \<open>
  Claim C4. If \<open>jack_client_open\<close> returns no client, the process writes its
  diagnostic to standard error and exits with status 1; the call of
  \<open>jack_client_open\<close> and the diagnostic are all it has done, so no port registration
  has been attempted.
\<close>

theorem open_failure_exits:
  assumes "client_open_result env = 0"
  shows "fst (main env) = 1 \<and>
         actions (snd (main env)) =
           [Jack_client_open ''jack_large_number_ports'',
            Fprintf Stderr (''jack_client_open() failed, status = 0x%2.0x'' @ endl)
              [Arg_uint (client_open_status env)]] @
           (if client_open_status env AND JackServerFailed \<noteq> 0
            then [Fprintf Stderr (''Unable to connect to JACK server'' @ endl) []]
            else []) \<and>
         \<not> list_ex is_register (actions (snd (main env)))"
  using assms by (simp add: main_def main_setup_def main_open_fails)

text \<open>A server that cannot be reached, with the status \<open>JackFailure | JackServerFailed\<close>.\<close>

theorem open_failure_exits_witness:
  "client_open_result absent_server = 0 \<and> fst (main absent_server) = 1 \<and>
   actions (snd (main absent_server)) =
     [Jack_client_open ''jack_large_number_ports'',
      Fprintf Stderr (''jack_client_open() failed, status = 0x%2.0x'' @ endl) [Arg_uint 0x11],
      Fprintf Stderr (''Unable to connect to JACK server'' @ endl) []] \<and>
   \<not> list_ex is_register (actions (snd (main absent_server)))"
proof -
  have closed: "client_open_result absent_server = 0" by (rule example_opens)
  have "client_open_status absent_server = 0x11"
    by (simp add: absent_server_def example_server_def)
  with open_failure_exits [OF closed] closed show ?thesis
    by (simp add: JackServerFailed_def)
qed

text \<open>
  Claim C5. When the client opens, every registration succeeds and the activation
  returns 0, the run of \<open>main\<close> ends with the activation, the sleep of 60 seconds,
  the line \<open>Starting close\<close>, \<open>jack_deactivate\<close>, \<open>jack_client_close\<close>, and the exit
  status 0.
\<close>

theorem normal_completion:
  assumes "client_open_result env \<noteq> 0"
    and "\<forall>i<num_ports. input_handle env i \<noteq> 0 \<and> output_handle env i \<noteq> 0"
    and "activate_result env = 0"
  shows "fst (main env) = 0 \<and>
         suffix [Jack_activate, Sleep_for_seconds 60, Write Stdout (''Starting close'' @ endl),
                 Jack_deactivate, Jack_client_close]
           (actions (snd (main env)))"
proof -
  from main_ready [OF assms(1,2)] assms(3) obtain pre where
    run: "main env = (0,
        \<lparr>jack_client = client_open_result env,
         input_ports = map (input_handle env) [0..<num_ports],
         output_ports = map (output_handle env) [0..<num_ports],
         actions = (pre @ map register_input [0..<num_ports] @
                    map register_output [0..<num_ports]) @
                   [Jack_activate, Sleep_for_seconds 60,
                    Write Stdout (''Starting close'' @ endl),
                    Jack_deactivate, Jack_client_close]\<rparr>)"
    by force
  show ?thesis unfolding run by (simp add: suffix_def)
qed

text \<open>The run with the server that accepts everything.\<close>

theorem normal_completion_witness:
  "fst (main example_server) = 0 \<and>
   suffix [Jack_activate, Sleep_for_seconds 60, Write Stdout (''Starting close'' @ endl),
           Jack_deactivate, Jack_client_close]
     (actions (snd (main example_server)))"
  using normal_completion [of example_server]
  by (simp add: example_handles example_opens)

text \<open>
  Claim C7. If the run reaches \<open>jack_activate\<close> and the call returns nonzero, the
  process writes \<open>cannot activate client\<close> to standard error right after the call and
  exits with status 1.
\<close>

theorem activation_failure_exits:
  assumes "Jack_activate \<in> set (actions (snd (main env)))"
    and "activate_result env \<noteq> 0"
  shows "fst (main env) = 1 \<and>
         suffix [Jack_activate, Fprintf Stderr ''cannot activate client'' []]
           (actions (snd (main env))) \<and>
         Jack_deactivate \<notin> set (actions (snd (main env))) \<and>
         Jack_client_close \<notin> set (actions (snd (main env)))"
proof -
  from assms(1) have "client_open_result env \<noteq> 0"
    and "\<forall>j<num_ports. input_handle env j \<noteq> 0 \<and> output_handle env j \<noteq> 0"
    by (simp_all add: activation_reached)
  from main_ready [OF this] assms(2) obtain pre where pre: "list_all quiet pre" and
    run: "main env = (1,
        \<lparr>jack_client = client_open_result env,
         input_ports = map (input_handle env) [0..<num_ports],
         output_ports = map (output_handle env) [0..<num_ports],
         actions = (pre @ map register_input [0..<num_ports] @
                    map register_output [0..<num_ports]) @
                   [Jack_activate, Fprintf Stderr ''cannot activate client'' []]\<rparr>)"
    by force
  show ?thesis unfolding run using pre
    by (simp add: suffix_def quiet_list registrations_list)
qed

text \<open>The run with the server that refuses the activation.\<close>

theorem activation_failure_exits_witness:
  "Jack_activate \<in> set (actions (snd (main inactive_server))) \<and>
   activate_result inactive_server \<noteq> 0 \<and>
   fst (main inactive_server) = 1 \<and>
   suffix [Jack_activate, Fprintf Stderr ''cannot activate client'' []]
     (actions (snd (main inactive_server)))"
proof -
  have reached: "Jack_activate \<in> set (actions (snd (main inactive_server)))"
    by (simp add: activation_reached example_handles example_opens)
  from activation_failure_exits [OF reached] reached show ?thesis
    by (simp add: example_opens)
qed

subsection \<open>Failure of a registration\<close>

lemma failed_input_registration:
  assumes "Jack_port_register name type flags \<in> register_input ` A"
    and "port_register_result env name flags = 0"
  shows "\<exists>j\<in>A. input_handle env j = 0 \<and> name = input_name j \<and> flags = JackPortIsInput"
  using assms by (auto simp: register_input_def input_handle_def)

lemma failed_output_registration:
  assumes "Jack_port_register name type flags \<in> register_output ` A"
    and "port_register_result env name flags = 0"
  shows "\<exists>j\<in>A. output_handle env j = 0 \<and> name = output_name j \<and> flags = JackPortIsOutput"
  using assms by (auto simp: register_output_def output_handle_def)

text \<open>
  Claim C3. If a call of \<open>jack_port_register\<close> made in the run returns \<open>nullptr\<close>, then
  it is the last call of the run: the process writes the line naming the port to
  standard error right after it and exits with status 1, and the run contains no
  call of \<open>jack_activate\<close> (so the process callback is never started), of
  \<open>jack_deactivate\<close> or of \<open>jack_client_close\<close>.
\<close>

theorem registration_failure_exits:
  assumes made: "Jack_port_register name type flags \<in> set (actions (snd (main env)))"
    and refused: "port_register_result env name flags = 0"
  shows "fst (main env) = 1 \<and>
         Jack_activate \<notin> set (actions (snd (main env))) \<and>
         Jack_deactivate \<notin> set (actions (snd (main env))) \<and>
         Jack_client_close \<notin> set (actions (snd (main env))) \<and>
         (\<exists>k<num_ports.
            (flags = JackPortIsInput \<and> name = input_name k \<and>
             suffix [register_input k, input_failure k] (actions (snd (main env)))) \<or>
            (flags = JackPortIsOutput \<and> name = output_name k \<and>
             suffix [register_output k, output_failure k] (actions (snd (main env)))))"
proof (cases env rule: main_setup_cases)
  case (open_failed s)
  then have "actions (snd (main env)) = actions s" by (simp add: main_def)
  then show ?thesis using made open_failed(2) by (simp add: quiet_list)
next
  case (input_failed k pre)
  let ?acts = "pre @ map register_input [0..<k] @ [register_input k, input_failure k]"
  have run: "fst (main env) = 1" "actions (snd (main env)) = ?acts"
    using input_failed(6) by (simp_all add: main_def)
  have quiet: "Jack_activate \<notin> set ?acts \<and> Jack_deactivate \<notin> set ?acts \<and>
      Jack_client_close \<notin> set ?acts"
    using input_failed(4)
    by (simp add: quiet_list registrations_list register_input_facts failure_facts)
  have "Jack_port_register name type flags \<in> register_input ` {0..<k} \<or>
      Jack_port_register name type flags = register_input k"
    using made input_failed(4) by (auto simp: run quiet_list input_failure_def)
  then have "flags = JackPortIsInput \<and> name = input_name k"
  proof
    assume "Jack_port_register name type flags \<in> register_input ` {0..<k}"
    from failed_input_registration [OF this refused] input_failed(5)
    show ?thesis by auto
  next
    assume "Jack_port_register name type flags = register_input k"
    then show ?thesis by (simp add: register_input_def)
  qed
  moreover have "suffix [register_input k, input_failure k] ?acts"
    by (simp add: suffix_def)
  ultimately show ?thesis using run quiet input_failed(2) by auto
next
  case (output_failed k pre)
  let ?acts = "pre @ map register_input [0..<num_ports] @ map register_output [0..<k] @
      [register_output k, output_failure k]"
  have run: "fst (main env) = 1" "actions (snd (main env)) = ?acts"
    using output_failed(7) by (simp_all add: main_def)
  have quiet: "Jack_activate \<notin> set ?acts \<and> Jack_deactivate \<notin> set ?acts \<and>
      Jack_client_close \<notin> set ?acts"
    using output_failed(4)
    by (simp add: quiet_list registrations_list register_output_facts failure_facts)
  have "Jack_port_register name type flags \<in> register_input ` {0..<num_ports} \<or>
      Jack_port_register name type flags \<in> register_output ` {0..<k} \<or>
      Jack_port_register name type flags = register_output k"
    using made output_failed(4) by (auto simp: run quiet_list output_failure_def)
  then have "flags = JackPortIsOutput \<and> name = output_name k"
  proof (elim disjE)
    assume "Jack_port_register name type flags \<in> register_input ` {0..<num_ports}"
    from failed_input_registration [OF this refused] output_failed(5)
    show ?thesis by auto
  next
    assume "Jack_port_register name type flags \<in> register_output ` {0..<k}"
    from failed_output_registration [OF this refused] output_failed(6)
    show ?thesis by auto
  next
    assume "Jack_port_register name type flags = register_output k"
    then show ?thesis by (simp add: register_output_def)
  qed
  moreover have "suffix [register_output k, output_failure k] ?acts"
    by (simp add: suffix_def)
  ultimately show ?thesis using run quiet output_failed(2) by auto
next
  case (ready pre)
  from main_ready [OF ready(1,2)] obtain pre' where pre': "list_all quiet pre'"
    and run: "actions (snd (main env)) =
      pre' @ map register_input [0..<num_ports] @ map register_output [0..<num_ports] @
      Jack_activate #
      (if activate_result env \<noteq> 0
       then [Fprintf Stderr ''cannot activate client'' []]
       else [Sleep_for_seconds 60, Write Stdout (''Starting close'' @ endl),
             Jack_deactivate, Jack_client_close])"
    by force
  have "Jack_port_register name type flags \<notin> set pre'"
    using pre' by (simp add: quiet_list)
  then have "Jack_port_register name type flags \<in> register_input ` {0..<num_ports} \<or>
      Jack_port_register name type flags \<in> register_output ` {0..<num_ports}"
    using made unfolding run by (simp split: if_splits)
  then have False
  proof
    assume "Jack_port_register name type flags \<in> register_input ` {0..<num_ports}"
    from failed_input_registration [OF this refused] ready(2) show False by auto
  next
    assume "Jack_port_register name type flags \<in> register_output ` {0..<num_ports}"
    from failed_output_registration [OF this refused] ready(2) show False by auto
  qed
  then show ?thesis ..
qed

lemma refused_port:
  "output_handle refusing_server 2 = 0" "output_name 2 = ''output-2''"
  by (simp_all add: output_handle_def refusing_server_def output_name_def
      decimal.simps digit_char_def)

lemma refused_port_only:
  "output_handle refusing_server k = 0 \<Longrightarrow> output_name k = ''output-2''"
  by (simp add: output_handle_def refusing_server_def example_server_def split: if_splits)

lemma refusing_run:
  "Jack_port_register ''output-2'' JACK_DEFAULT_AUDIO_TYPE JackPortIsOutput
     \<in> set (actions (snd (main refusing_server)))"
proof (cases refusing_server rule: main_setup_cases)
  case (open_failed s)
  then show ?thesis by (simp add: example_opens)
next
  case (input_failed k pre)
  then show ?thesis by (simp add: example_handles)
next
  case (output_failed k pre)
  then have "register_output k =
      Jack_port_register ''output-2'' JACK_DEFAULT_AUDIO_TYPE JackPortIsOutput"
    by (simp add: register_output_def refused_port_only)
  then show ?thesis using output_failed(7) by (simp add: main_def)
next
  case (ready pre)
  then show ?thesis using refused_port(1) num_ports_pos by auto
qed

text \<open>The run with the server that refuses the port \<open>output-2\<close>.\<close>

theorem registration_failure_exits_witness:
  "Jack_port_register ''output-2'' JACK_DEFAULT_AUDIO_TYPE JackPortIsOutput
     \<in> set (actions (snd (main refusing_server))) \<and>
   port_register_result refusing_server ''output-2'' JackPortIsOutput = 0 \<and>
   fst (main refusing_server) = 1 \<and>
   Jack_activate \<notin> set (actions (snd (main refusing_server))) \<and>
   Jack_deactivate \<notin> set (actions (snd (main refusing_server))) \<and>
   Jack_client_close \<notin> set (actions (snd (main refusing_server))) \<and>
   (\<exists>k<num_ports. ''output-2'' = output_name k \<and>
      suffix [register_output k, output_failure k] (actions (snd (main refusing_server))))"
proof -
  have refused: "port_register_result refusing_server ''output-2'' JackPortIsOutput = 0"
    by (simp add: refusing_server_def)
  from registration_failure_exits [OF refusing_run refused] refusing_run refused
  show ?thesis by auto
qed

subsection \<open>The process callback copies\<close>

text \<open>
  Claim C1, amended. When both vectors hold their 1024 handles and, among the first
  \<open>nframes\<close> samples, no output buffer overlaps an input buffer or another output
  buffer, the callback returns 0 and afterwards, for every port \<open>i\<close> below 1024 and
  every \<open>k\<close> below \<open>nframes\<close>, sample \<open>k\<close> of the output buffer \<open>i\<close> is sample \<open>k\<close> of the
  input buffer \<open>i\<close>, as it was before the call and as it is after it.
\<close>

theorem process_copies_separate_buffers:
  assumes "ports_registered s" and "buffers_separate env s nframes"
  shows "\<exists>m'. process env nframes arg (s, m) = Inr (0, s, m') \<and>
           (\<forall>i<num_ports. \<forall>k<nframes.
              m' (out_buf env s nframes i + k) = m (in_buf env s nframes i + k) \<and>
              m' (in_buf env s nframes i + k) = m (in_buf env s nframes i + k))"
proof -
  from process_result [OF assms(1)] obtain m' where
    ret: "process env nframes arg (s, m) = Inr (0, s, m')"
    and loop: "process_loop env nframes s 0 m = Inr m'"
    by blast
  have "m' (out_buf env s nframes i + k) = m (in_buf env s nframes i + k) \<and>
        m' (in_buf env s nframes i + k) = m (in_buf env s nframes i + k)"
    if i: "i < num_ports" and k: "k < nframes" for i k
  proof
    show "m' (out_buf env s nframes i + k) = m (in_buf env s nframes i + k)"
      using loop assms(2) _ i k by (rule process_loop_copy) simp
    have "in_buf env s nframes i + k \<in> span (in_buf env s nframes i) nframes"
      using k by (simp add: span_def)
    then have "\<forall>j. 0 \<le> j \<and> j < num_ports \<longrightarrow>
        in_buf env s nframes i + k \<notin> span (out_buf env s nframes j) nframes"
      using assms(2) i by (auto simp: buffers_separate_def)
    with loop show "m' (in_buf env s nframes i + k) = m (in_buf env s nframes i + k)"
      by (rule process_loop_frame)
  qed
  with ret show ?thesis by blast
qed

lemma example_registered: "ports_registered example_state"
  by (simp add: ports_registered_def example_state_def num_ports_def)

lemma example_bufs:
  "i < 1024 \<Longrightarrow> in_buf example_server example_state n i = 4096 * (1 + i)"
  "i < 1024 \<Longrightarrow> out_buf example_server example_state n i = 4096 * (1025 + i)"
  by (simp_all add: in_buf_def out_buf_def example_server_def example_state_def
      del: upt_rec_numeral)

lemma spans_apart: "a + n \<le> b \<or> b + n \<le> a \<Longrightarrow> span a n \<inter> span b n = {}"
  by (auto simp: span_def)

lemma example_separate: "buffers_separate example_server example_state 256"
proof (unfold buffers_separate_def, intro ballI conjI impI)
  fix i j
  assume "i \<in> {..<num_ports}" "j \<in> {..<num_ports}"
  then have i: "i < 1024" and j: "j < 1024" by (simp_all add: num_ports_def)
  have "4096 * (1 + j) + 256 \<le> 4096 * (1025 + i)" using j by simp
  then show "span (out_buf example_server example_state 256 i) 256 \<inter>
      span (in_buf example_server example_state 256 j) 256 = {}"
    unfolding example_bufs(2) [OF i] example_bufs(1) [OF j]
    by (intro spans_apart disjI2)
  assume "i \<noteq> j"
  then consider "i < j" | "j < i" by linarith
  then have "4096 * (1025 + i) + 256 \<le> 4096 * (1025 + j) \<or>
      4096 * (1025 + j) + 256 \<le> 4096 * (1025 + i)"
    by cases simp_all
  then show "span (out_buf example_server example_state 256 i) 256 \<inter>
      span (out_buf example_server example_state 256 j) 256 = {}"
    unfolding example_bufs(2) [OF i] example_bufs(2) [OF j]
    by (rule spans_apart)
qed

text \<open>A cycle of 256 frames with buffers 4096 samples apart.\<close>

theorem process_copies_separate_buffers_witness:
  "ports_registered example_state \<and> buffers_separate example_server example_state 256 \<and>
   sample_after (process example_server 256 0 (example_state, example_memory))
     (out_buf example_server example_state 256 5 + 3) =
   Some (example_memory (in_buf example_server example_state 256 5 + 3)) \<and>
   sample_after (process example_server 256 0 (example_state, example_memory))
     (in_buf example_server example_state 256 5 + 3) =
   Some (example_memory (in_buf example_server example_state 256 5 + 3))"
proof -
  from process_copies_separate_buffers [OF example_registered example_separate,
      of 0 example_memory]
  obtain m' where
    "process example_server 256 0 (example_state, example_memory) = Inr (0, example_state, m')"
    and "\<forall>i<num_ports. \<forall>k<256.
      m' (out_buf example_server example_state 256 i + k) =
        example_memory (in_buf example_server example_state 256 i + k) \<and>
      m' (in_buf example_server example_state 256 i + k) =
        example_memory (in_buf example_server example_state 256 i + k)"
    by blast
  moreover have "(5::nat) < num_ports" "(3::nat) < 256" by (simp_all add: num_ports_def)
  ultimately show ?thesis
    using example_registered example_separate by (simp add: sample_after_def)
qed

subsection \<open>Shared buffers, the return value and the frame of the process callback\<close>

text \<open>The cycle of one frame with the server that shares buffers.\<close>

lemma aliasing_bufs:
  "i < 1024 \<Longrightarrow> in_buf aliasing_server example_state n i =
     (if i = 0 \<or> i = 2 then 4096 * 1026 else 4096 * (1 + i))"
  "i < 1024 \<Longrightarrow> out_buf aliasing_server example_state n i = 4096 * (1025 + i)"
  by (simp_all add: in_buf_def out_buf_def aliasing_server_def example_server_def
      example_state_def del: upt_rec_numeral)

lemma aliasing_cycle:
  "\<exists>m'. process aliasing_server 1 arg (example_state, aliasing_memory) =
           Inr (0, example_state, m') \<and>
         m' (4096 * 1025) = 0 \<and> m' (4096 * 1026) = 7 \<and> m' (4096 * 1027) = 7"
proof -
  let ?s = example_state and ?env = aliasing_server
  from process_result [OF example_registered] obtain m' where
    ret: "process ?env 1 arg (?s, aliasing_memory) = Inr (0, ?s, m')"
    and loop: "process_loop ?env 1 ?s 0 aliasing_memory = Inr m'"
    by blast
  have len: "length (input_ports ?s) = 1024" "length (output_ports ?s) = 1024"
    by (simp_all add: example_state_def)
  define m1 where "m1 = aliasing_memory (4096 * 1025 := aliasing_memory (4096 * 1026))"
  define m2 where "m2 = m1 (4096 * 1026 := m1 (4096 * 2))"
  define m3 where "m3 = m2 (4096 * 1027 := m2 (4096 * 1026))"
  have "process_loop ?env 1 ?s 0 aliasing_memory = process_loop ?env 1 ?s (Suc 0) m1"
    by (subst process_loop_step) (simp_all add: num_ports_def len aliasing_bufs m1_def)
  also have "\<dots> = process_loop ?env 1 ?s (Suc (Suc 0)) m2"
    by (subst process_loop_step) (simp_all add: num_ports_def len aliasing_bufs m2_def)
  also have "\<dots> = process_loop ?env 1 ?s (Suc (Suc (Suc 0))) m3"
    by (subst process_loop_step) (simp_all add: num_ports_def len aliasing_bufs m3_def)
  finally have rest: "process_loop ?env 1 ?s (Suc (Suc (Suc 0))) m3 = Inr m'"
    using loop by simp
  have untouched: "m' a = m3 a" if "a < 4096 * 1028" for a
  proof (rule process_loop_frame [OF rest], intro allI impI)
    fix j
    assume "Suc (Suc (Suc 0)) \<le> j \<and> j < num_ports"
    then have j: "3 \<le> j" "j < 1024" by (simp_all add: num_ports_def)
    then have "4096 * 1028 \<le> 4096 * (1025 + j)" by simp
    then show "a \<notin> span (out_buf ?env ?s 1 j) 1"
      using that unfolding aliasing_bufs(2) [OF j(2)] by (simp add: span_def)
  qed
  have "m3 (4096 * 1025) = 0" "m3 (4096 * 1026) = 7" "m3 (4096 * 1027) = 7"
    by (simp_all add: m3_def m2_def m1_def aliasing_memory_def)
  then have "m' (4096 * 1025) = 0 \<and> m' (4096 * 1026) = 7 \<and> m' (4096 * 1027) = 7"
    by (simp add: untouched)
  with ret show ?thesis by blast
qed

text \<open>
  Claim C1 as it is stated fails when buffers are shared. In a cycle of one frame
  with the server that gives the input ports 0 and 2 the buffer of output port 1:
  iteration 0 copies the 0 of that buffer to output 0, iteration 1 writes the 7 of
  input 1 into it, iteration 2 copies the 7 to output 2. After the callback the first
  sample of output 0 is 0 and that of input 0 is 7; the first sample of output 2 is 7
  and that of input 2 was 0 before the call.
\<close>

theorem aliased_output_differs:
  "sample_after (process aliasing_server 1 0 (example_state, aliasing_memory))
     (out_buf aliasing_server example_state 1 0) = Some 0 \<and>
   sample_after (process aliasing_server 1 0 (example_state, aliasing_memory))
     (in_buf aliasing_server example_state 1 0) = Some 7 \<and>
   sample_after (process aliasing_server 1 0 (example_state, aliasing_memory))
     (out_buf aliasing_server example_state 1 2) = Some 7 \<and>
   aliasing_memory (in_buf aliasing_server example_state 1 2) = 0"
  using aliasing_cycle [of 0]
  by (auto simp: sample_after_def aliasing_bufs aliasing_memory_def)

text \<open>
  Claim C9. With both vectors holding their 1024 handles, as in every state the
  callback can run in (\<open>running_registered\<close>), the callback returns 0 for every frame
  count, and with \<open>nframes = 0\<close> it leaves the whole store, so every output buffer, as
  it was.
\<close>

theorem process_returns_zero:
  assumes "ports_registered s"
  shows "(\<exists>m'. process env nframes arg (s, m) = Inr (0, s, m')) \<and>
         process env 0 arg (s, m) = Inr (0, s, m)"
proof
  show "\<exists>m'. process env nframes arg (s, m) = Inr (0, s, m')"
    using process_result [OF assms] by blast
  from process_result [OF assms, of env 0 arg m] obtain m' where
    "process env 0 arg (s, m) = Inr (0, s, m')" "process_loop env 0 s 0 m = Inr m'"
    by blast
  then show "process env 0 arg (s, m) = Inr (0, s, m)"
    using process_loop_no_frames by fastforce
qed

text \<open>Cycles of 256 frames and of no frame.\<close>

theorem process_returns_zero_witness:
  "ports_registered example_state \<and>
   (\<exists>m'. process example_server 256 0 (example_state, example_memory) =
            Inr (0, example_state, m')) \<and>
   process example_server 0 0 (example_state, example_memory) =
     Inr (0, example_state, example_memory)"
  using process_returns_zero [OF example_registered] example_registered by blast

text \<open>
  Claim C10, amended. The callback returns the program state it was given (the two
  vectors and the client handle) and changes the store only within the first
  \<open>nframes\<close> samples of the output buffers: every sample slot outside this area keeps
  its content. So a sample of an input buffer, or a sample of an output buffer from
  index \<open>nframes\<close> on, is unchanged unless its slot is also one of the first \<open>nframes\<close>
  of some output buffer.
\<close>

theorem process_writes_output_area_only:
  assumes "ports_registered s"
  shows "\<exists>m'. process env nframes arg (s, m) = Inr (0, s, m') \<and>
           (\<forall>a. a \<notin> output_area env s nframes \<longrightarrow> m' a = m a)"
proof -
  from process_result [OF assms] obtain m' where
    ret: "process env nframes arg (s, m) = Inr (0, s, m')"
    and loop: "process_loop env nframes s 0 m = Inr m'"
    by blast
  have "m' a = m a" if "a \<notin> output_area env s nframes" for a
    using loop
  proof (rule process_loop_frame)
    show "\<forall>j. 0 \<le> j \<and> j < num_ports \<longrightarrow> a \<notin> span (out_buf env s nframes j) nframes"
      using that by (auto simp: output_area_def)
  qed
  with ret show ?thesis by blast
qed

lemma example_outside:
  assumes "a < 4096 * 1025 \<or> (\<exists>i r. a = 4096 * i + r \<and> 256 \<le> r \<and> r < 4096)"
  shows "a \<notin> output_area example_server example_state 256"
proof
  assume "a \<in> output_area example_server example_state 256"
  then obtain j where j: "j < 1024"
    and a: "a \<in> span (out_buf example_server example_state 256 j) 256"
    by (auto simp: output_area_def num_ports_def)
  from a have lo: "4096 * (1025 + j) \<le> a" and hi: "a < 4096 * (1025 + j) + 256"
    unfolding example_bufs(2) [OF j] by (simp_all add: span_def)
  from assms show False
  proof
    assume "a < 4096 * 1025"
    with lo show False by simp
  next
    assume "\<exists>i r. a = 4096 * i + r \<and> 256 \<le> r \<and> r < 4096"
    then obtain i r where "a = 4096 * i + r" "256 \<le> r" "r < 4096" by blast
    with lo hi show False by (cases "i < 1025 + j"; cases "1025 + j < i") simp_all
  qed
qed

text \<open>A sample of input buffer 7 and sample 256 of output buffer 7, in a cycle of 256
  frames.\<close>

theorem process_writes_output_area_only_witness:
  "ports_registered example_state \<and>
   in_buf example_server example_state 256 7 + 100 \<notin>
     output_area example_server example_state 256 \<and>
   sample_after (process example_server 256 0 (example_state, example_memory))
     (in_buf example_server example_state 256 7 + 100) =
   Some (example_memory (in_buf example_server example_state 256 7 + 100)) \<and>
   out_buf example_server example_state 256 7 + 256 \<notin>
     output_area example_server example_state 256 \<and>
   sample_after (process example_server 256 0 (example_state, example_memory))
     (out_buf example_server example_state 256 7 + 256) =
   Some (example_memory (out_buf example_server example_state 256 7 + 256))"
proof -
  have inp: "in_buf example_server example_state 256 7 + 100 \<notin>
      output_area example_server example_state 256"
    by (rule example_outside) (simp add: example_bufs)
  have "out_buf example_server example_state 256 7 + 256 = 4096 * 1032 + 256"
    by (simp add: example_bufs)
  then have out: "out_buf example_server example_state 256 7 + 256 \<notin>
      output_area example_server example_state 256"
    by (intro example_outside disjI2 exI [of _ 1032] exI [of _ 256]) simp
  from process_writes_output_area_only [OF example_registered, of example_server 256 0
      example_memory]
  obtain m' where
    "process example_server 256 0 (example_state, example_memory) = Inr (0, example_state, m')"
    and "\<forall>a. a \<notin> output_area example_server example_state 256 \<longrightarrow> m' a = example_memory a"
    by blast
  then show ?thesis using inp out example_registered by (simp add: sample_after_def)
qed

text \<open>
  Claim C10 as it is stated fails when buffers are shared: in the cycle above the
  first sample of the buffer of input port 0 is 0 before the callback and 7 after it.
\<close>

theorem aliased_input_overwritten:
  "aliasing_memory (in_buf aliasing_server example_state 1 0) = 0 \<and>
   sample_after (process aliasing_server 1 0 (example_state, aliasing_memory))
     (in_buf aliasing_server example_state 1 0) = Some 7"
  using aliasing_cycle [of 0]
  by (auto simp: sample_after_def aliasing_bufs aliasing_memory_def)

subsection \<open>The shutdown callback and the port vectors\<close>

text \<open>
  Claim C6. In whatever state the program is, the shutdown callback ends the process
  with status 1 and does nothing else: the state and so the list of actions are as
  before, with no call of \<open>jack_deactivate\<close> or \<open>jack_client_close\<close> added.
\<close>

theorem shutdown_exits:
  "fst (jack_shutdown arg s) = 1 \<and> snd (jack_shutdown arg s) = s \<and>
   actions (snd (jack_shutdown arg s)) = actions s"
  by (simp add: jack_shutdown_def)

lemma running_ports:
  "running env s \<Longrightarrow>
   input_ports s = map (input_handle env) [0..<num_ports] \<and>
   output_ports s = map (output_handle env) [0..<num_ports]"
proof (induction rule: running.induct)
  case (set_up s)
  then show ?case by (cases env rule: main_setup_cases) auto
next
  case (cycle s nframes arg m v s' m')
  from cycle.hyps(2) have "s' = s"
    by (auto simp: process_def split: sum.splits)
  with cycle.IH show ?case by simp
next
  case (shutdown s arg v s')
  then show ?case by (simp add: jack_shutdown_def)
next
  case (finish s v s')
  from finish.hyps(2) have "input_ports s' = input_ports s \<and> output_ports s' = output_ports s"
    by (auto simp: main_run_eq split: if_splits)
  with finish.IH show ?case by simp
qed

lemma running_registered: "running env s \<Longrightarrow> ports_registered s"
  by (simp add: running_ports ports_registered_def)

text \<open>
  Claim C8. In every state from the end of the set-up on, after any number of process
  callbacks, to the exit of \<open>main\<close> or of the shutdown callback, both vectors are
  the lists of the 1024 handles the registrations returned, and a process callback
  run in such a state returns this very state.
\<close>

theorem ports_fixed_while_running:
  assumes "running env s"
  shows "input_ports s = map (input_handle env) [0..<num_ports] \<and>
         output_ports s = map (output_handle env) [0..<num_ports] \<and>
         length (input_ports s) = 1024 \<and> length (output_ports s) = 1024 \<and>
         (\<exists>m'. process env nframes arg (s, m) = Inr (0, s, m'))"
proof -
  note ports = running_ports [OF assms]
  from process_result [OF running_registered [OF assms]] have "\<exists>m'. process env nframes arg (s, m) = Inr (0, s, m')"
    by blast
  moreover have "length (input_ports s) = 1024 \<and> length (output_ports s) = 1024"
    using ports by (simp add: num_ports_def)
  ultimately show ?thesis using ports by blast
qed

lemma digits_round_trip: "list_all (\<lambda>d. digit_value (digit_char d) = d) [0..<10]"
  by code_simp

lemma digit_value_digit_char: "d < 10 \<Longrightarrow> digit_value (digit_char d) = d"
  using digits_round_trip by (simp add: list_all_iff del: upt_rec_numeral)

lemma number_snoc: "number (cs @ [c]) = 10 * number cs + digit_value c"
  by (simp add: number_def)

lemma number_decimal: "number (decimal n) = n"
proof (induction n rule: decimal.induct)
  case (1 n)
  show ?case
  proof (cases "n < 10")
    case True
    then show ?thesis
      by (subst decimal.simps) (simp add: number_def digit_value_digit_char)
  next
    case False
    then have "number (decimal n) = 10 * number (decimal (n div 10)) + digit_value (digit_char (n mod 10))"
      by (subst decimal.simps) (simp add: number_snoc)
    also have "\<dots> = 10 * (n div 10) + n mod 10"
      using "1.IH" [OF False] by (simp add: digit_value_digit_char)
    finally show ?thesis by simp
  qed
qed

lemma example_handle_values:
  "input_handle example_server = Suc" "output_handle example_server = (\<lambda>i. i + 1025)"
  by (simp_all add: input_handle_def output_handle_def example_server_def input_name_def
      output_name_def number_decimal fun_eq_iff)

lemma example_running: "running example_server (snd (main example_server))"
proof (cases example_server rule: main_setup_cases)
  case (ready pre)
  then have "running example_server
      \<lparr>jack_client = client_open_result example_server,
       input_ports = map (input_handle example_server) [0..<num_ports],
       output_ports = map (output_handle example_server) [0..<num_ports],
       actions = pre @ map register_input [0..<num_ports] @
                 map register_output [0..<num_ports]\<rparr>"
    by (intro running.set_up)
  moreover have "main_run example_server
      \<lparr>jack_client = client_open_result example_server,
       input_ports = map (input_handle example_server) [0..<num_ports],
       output_ports = map (output_handle example_server) [0..<num_ports],
       actions = pre @ map register_input [0..<num_ports] @
                 map register_output [0..<num_ports]\<rparr> =
      (fst (main example_server), snd (main example_server))"
    by (simp add: main_def ready)
  ultimately show ?thesis by (rule running.finish)
qed (use example_opens example_handles in auto)

lemma example_ports:
  "map (input_handle example_server) [0..<num_ports] = input_ports example_state"
  "map (output_handle example_server) [0..<num_ports] = output_ports example_state"
  by (simp_all add: example_handle_values example_state_def num_ports_def map_Suc_upt
      map_add_upt del: upt_rec_numeral)

lemma aliasing_handles:
  "input_handle aliasing_server = input_handle example_server"
  "output_handle aliasing_server = output_handle example_server"
  "client_open_result aliasing_server = client_open_result example_server"
  by (simp_all add: input_handle_def output_handle_def aliasing_server_def fun_eq_iff)

lemma example_state_set_up:
  "\<exists>acts. main_setup example_server = Inr (example_state\<lparr>actions := acts\<rparr>)"
  "\<exists>acts. main_setup aliasing_server = Inr (example_state\<lparr>actions := acts\<rparr>)"
proof -
  show "\<exists>acts. main_setup example_server = Inr (example_state\<lparr>actions := acts\<rparr>)"
  proof (cases example_server rule: main_setup_cases)
    case (ready pre)
    then show ?thesis
      by (simp add: example_ports) (simp add: example_state_def example_server_def)
  qed (use example_opens example_handles in auto)
  show "\<exists>acts. main_setup aliasing_server = Inr (example_state\<lparr>actions := acts\<rparr>)"
  proof (cases aliasing_server rule: main_setup_cases)
    case (ready pre)
    then show ?thesis
      by (simp add: aliasing_handles example_ports)
        (simp add: example_state_def example_server_def)
  qed (use example_opens example_handles in \<open>auto simp: aliasing_handles\<close>)
qed

text \<open>The state in which \<open>main\<close> exits with the server that accepts everything.\<close>

theorem ports_fixed_while_running_witness:
  "running example_server (snd (main example_server)) \<and>
   input_ports (snd (main example_server)) = input_ports example_state \<and>
   output_ports (snd (main example_server)) = output_ports example_state \<and>
   length (input_ports (snd (main example_server))) = 1024 \<and>
   length (output_ports (snd (main example_server))) = 1024 \<and>
   (\<exists>m'. process example_server 256 0 (snd (main example_server), example_memory) =
            Inr (0, snd (main example_server), m'))"
  using ports_fixed_while_running [OF example_running, of 256 0 example_memory]
    example_running example_ports
  by metis

end
